theory Spec2Isabelle
  imports Main
begin

section \<open>Python strings\<close>

text \<open>
  The four scripts work on Python \<open>str\<close> values read from \<open>.tsx\<close> files. A text is a
  \<^typ>\<open>string\<close>; a \<^typ>\<open>char\<close> stands for the Unicode code point of the same number, so the
  model covers texts whose code points are below 256. The character classes below are Python's
  on that range.
\<close>

definition isspace :: "char \<Rightarrow> bool" where
  \<comment> \<open>\<open>str.isspace\<close>, the class of \<open>str.strip()\<close> and of \<open>\s\<close>\<close>
  "isspace c = (c \<in> set [CHR 0x09, CHR 0x0A, CHR 0x0B, CHR 0x0C, CHR 0x0D,
                           CHR 0x1C, CHR 0x1D, CHR 0x1E, CHR 0x1F, CHR 0x20, CHR 0x85, CHR 0xA0])"

definition isword :: "char \<Rightarrow> bool" where
  \<comment> \<open>\<open>\w\<close>: \<open>str.isalnum\<close> or the underscore\<close>
  "isword c =
     (c \<in> set ''abcdefghijklmnopqrstuvwxyzABCDEFGHIJKLMNOPQRSTUVWXYZ0123456789_'' \<or>
      c \<in> set [CHR 0xAA, CHR 0xB2, CHR 0xB3, CHR 0xB5, CHR 0xB9, CHR 0xBA, CHR 0xBC, CHR 0xBD, CHR 0xBE] \<or>
      (let n = (of_char c :: nat) in (192 \<le> n \<and> n \<le> 214) \<or> (216 \<le> n \<and> n \<le> 246) \<or> 248 \<le> n))"

fun startswith :: "string \<Rightarrow> string \<Rightarrow> bool" where
  \<comment> \<open>\<open>s.startswith(p)\<close>\<close>
  "startswith s [] = True"
| "startswith [] (p # ps) = False"
| "startswith (c # s) (p # ps) = (c = p \<and> startswith s ps)"

fun py_in :: "string \<Rightarrow> string \<Rightarrow> bool" where
  \<comment> \<open>\<open>sub in s\<close>\<close>
  "py_in sub [] = (sub = [])"
| "py_in sub (c # s) = (startswith (c # s) sub \<or> py_in sub s)"

fun split :: "char \<Rightarrow> string \<Rightarrow> string list" where
  \<comment> \<open>\<open>s.split(sep)\<close> for a separator of one character\<close>
  "split sep [] = [[]]"
| "split sep (c # s) =
     (if c = sep then [] # split sep s
      else (case split sep s of [] \<Rightarrow> [[c]] | l # ls \<Rightarrow> (c # l) # ls))"

fun join :: "string \<Rightarrow> string list \<Rightarrow> string" where
  \<comment> \<open>\<open>sep.join(ls)\<close>\<close>
  "join sep [] = []"
| "join sep [l] = l"
| "join sep (l # ls) = l @ sep @ join sep ls"

definition strip :: "string \<Rightarrow> string" where
  \<comment> \<open>\<open>s.strip()\<close>\<close>
  "strip s = rev (dropWhile isspace (rev (dropWhile isspace s)))"

function replace :: "string \<Rightarrow> string \<Rightarrow> string \<Rightarrow> string" where
  \<comment> \<open>\<open>s.replace(old, new)\<close>, written \<open>replace old new s\<close>; \<open>old\<close> is not empty at either call\<close>
  "replace old new s =
     (if old = [] \<or> s = [] then s
      else if startswith s old then new @ replace old new (drop (length old) s)
      else hd s # replace old new (tl s))"
  by pat_completeness auto
termination
  by (relation "measure (\<lambda>(old, new, s). length s)") auto

definition insert_at :: "nat \<Rightarrow> 'a \<Rightarrow> 'a list \<Rightarrow> 'a list" where
  \<comment> \<open>\<open>xs.insert(k, x)\<close> for \<open>k \<ge> 0\<close>; beyond the end it appends\<close>
  "insert_at k x xs = take k xs @ x # drop k xs"

section \<open>The regular expressions of the scripts\<close>

text \<open>
  Every pattern of the scripts is a sequence of literals and of repetitions of one character
  class, with groups that cover consecutive elements. A pattern is a list of such elements; a
  match returns the piece of text each element consumed, and a group is the concatenation of the
  pieces of its elements.
\<close>

datatype cclass =
    Space              \<comment> \<open>\<open>\s\<close>\<close>
  | Word               \<comment> \<open>\<open>\w\<close>\<close>
  | OneOf string       \<comment> \<open>\<open>[...]\<close>\<close>
  | NoneOf string      \<comment> \<open>\<open>[^...]\<close>, which also matches a newline\<close>

datatype greed = Greedy | Lazy

datatype item =
    Lit string                 \<comment> \<open>literal text\<close>
  | One cclass                 \<comment> \<open>one character of the class\<close>
  | Opt cclass                 \<comment> \<open>\<open>c?\<close>\<close>
  | Rep cclass nat greed       \<comment> \<open>at least so many characters of the class: \<open>c*\<close>, \<open>c+\<close>, \<open>c*?\<close>\<close>

fun in_class :: "cclass \<Rightarrow> char \<Rightarrow> bool" where
  "in_class Space c = isspace c"
| "in_class Word c = isword c"
| "in_class (OneOf cs) c = (c \<in> set cs)"
| "in_class (NoneOf cs) c = (c \<notin> set cs)"

fun first_some :: "('a \<Rightarrow> 'b option) \<Rightarrow> 'a list \<Rightarrow> 'b option" where
  "first_some f [] = None"
| "first_some f (x # xs) = (case f x of Some y \<Rightarrow> Some y | None \<Rightarrow> first_some f xs)"

definition counts :: "cclass \<Rightarrow> nat \<Rightarrow> greed \<Rightarrow> string \<Rightarrow> nat list" where
  \<comment> \<open>the numbers of characters a repetition tries, in the order the backtracking engine tries them\<close>
  "counts c mn g s =
     (let n = length (takeWhile (in_class c) s)
      in case g of Greedy \<Rightarrow> rev [mn ..< Suc n] | Lazy \<Rightarrow> [mn ..< Suc n])"

definition consume :: "nat \<Rightarrow> string \<Rightarrow> (string list \<times> string) option \<Rightarrow> (string list \<times> string) option" where
  "consume k s r = map_option (\<lambda>(ps, rest). (take k s # ps, rest)) r"

primrec re_match :: "item list \<Rightarrow> string \<Rightarrow> (string list \<times> string) option" where
  \<comment> \<open>\<open>pattern.match\<close> at the start of \<open>s\<close>: the pieces and the text after the match\<close>
  "re_match [] s = Some ([], s)"
| "re_match (it # rs) s =
     (case it of
        Lit l \<Rightarrow> if startswith s l then consume (length l) s (re_match rs (drop (length l) s)) else None
      | One c \<Rightarrow> if s \<noteq> [] \<and> in_class c (hd s) then consume 1 s (re_match rs (tl s)) else None
      | Opt c \<Rightarrow> first_some (\<lambda>k. consume k s (re_match rs (drop k s)))
                  (if s \<noteq> [] \<and> in_class c (hd s) then [1, 0] else [0])
      | Rep c mn g \<Rightarrow> first_some (\<lambda>k. consume k s (re_match rs (drop k s))) (counts c mn g s))"

function re_sub :: "item list \<Rightarrow> (string list \<Rightarrow> string) \<Rightarrow> string \<Rightarrow> string" where
  \<comment> \<open>\<open>re.sub(pattern, repl, s)\<close>: leftmost matches, none overlapping, each replaced by \<open>repl\<close>\<close>
  "re_sub pat repl s =
     (case re_match pat s of
        None \<Rightarrow> (case s of [] \<Rightarrow> [] | c # cs \<Rightarrow> c # re_sub pat repl cs)
      | Some (ps, rest) \<Rightarrow>
          if length rest < length s then repl ps @ re_sub pat repl rest
          else repl ps @ (case s of [] \<Rightarrow> [] | c # cs \<Rightarrow> c # re_sub pat repl cs))"
  by pat_completeness auto
termination
  by (relation "measure (\<lambda>(pat, repl, s). length s)") auto

section \<open>What a pass returns\<close>

type_synonym path = "string list"

datatype message =
    Skip_has_HIT_SLOP string     \<comment> \<open>\<open>SKIP (has HIT_SLOP): <path>\<close>\<close>
  | Modified string              \<comment> \<open>\<open>Modified: <path>\<close>\<close>
  | Fixed string                 \<comment> \<open>\<open>Fixed: <path>\<close>\<close>

record outcome =
  returned :: bool
  printed :: "message list"
  written :: "string option"

definition content_after :: "string \<Rightarrow> outcome \<Rightarrow> string" where
  \<comment> \<open>the text of the file after the pass: the text written, or the old text\<close>
  "content_after content r = (case written r of None \<Rightarrow> content | Some c \<Rightarrow> c)"

text \<open>
  \<open>SRC_DIR\<close> is \<open>/mnt/d/claude dash/jarvis-native/src\<close>. Every pass takes its files from
  \<open>SRC_DIR.rglob("*.tsx")\<close>, so a file path is \<open>SRC_DIR\<close> followed by one or more names; a
  \<^typ>\<open>path\<close> is the list of those names.
\<close>

definition SRC_DIR :: "string list" where
  "SRC_DIR = [''mnt'', ''d'', ''claude dash'', ''jarvis-native'', ''src'']"

definition relative_to_parent :: "path \<Rightarrow> string" where
  \<comment> \<open>\<open>str(file_path.relative_to(SRC_DIR.parent))\<close>\<close>
  "relative_to_parent file_path = join ''/'' (last SRC_DIR # file_path)"

section \<open>add_hitslop.py\<close>

definition SKIP_FILES :: "string set" where
  "SKIP_FILES = {
     ''src/components/ProjectCard.tsx'',
     ''src/components/ui/SearchBar.tsx'',
     ''src/screens/main/HabitsScreen.tsx'',
     ''src/screens/main/TasksScreen.tsx'',
     ''src/components/BudgetCard.tsx'',
     ''src/components/BudgetFormModal.tsx''}"

fun commonprefix :: "string list \<Rightarrow> string list \<Rightarrow> string list" where
  "commonprefix (x # xs) (y # ys) = (if x = y then x # commonprefix xs ys else [])"
| "commonprefix xs ys = []"

definition relpath :: "string list \<Rightarrow> string list \<Rightarrow> string" where
  \<comment> \<open>\<open>os.path.relpath(path, start)\<close> of \<open>posixpath\<close>, on the names of two absolute paths\<close>
  "relpath path_list start_list =
     (let i = length (commonprefix start_list path_list);
          rel_list = replicate (length start_list - i) ''..'' @ drop i path_list
      in if rel_list = [] then ''.'' else join ''/'' rel_list)"

definition get_relative_import :: "path \<Rightarrow> string" where
  "get_relative_import file_path =
     (let rel_parts = relpath (SRC_DIR @ [''constants'', ''ui.ts'']) (SRC_DIR @ butlast file_path);
          rel_parts = replace [CHR 0x5C] ''/'' (replace ''.ts'' '''' rel_parts)
      in if \<not> startswith rel_parts ''.'' then ''./'' @ rel_parts else rel_parts)"

definition last_import_idx :: "string list \<Rightarrow> int" where
  \<comment> \<open>the loop of lines 53 to 56\<close>
  "last_import_idx lines =
     fold (\<lambda>(i, line) idx. if startswith (strip line) ''import '' then int i else idx)
       (enumerate 0 lines) (- 1)"

definition tag_pattern :: "item list" where
  \<comment> \<open>\<open>(<IconButton[^>]*?)(/?>)\<close>; group 1 is pieces 0 and 1, group 2 is pieces 2 and 3\<close>
  "tag_pattern = [Lit ''<IconButton'', Rep (NoneOf ''>'') 0 Lazy, Opt (OneOf ''/''), Lit ''>'']"

definition add_hitslop :: "string list \<Rightarrow> string" where
  "add_hitslop ps =
     (let tag = concat (take 2 ps); closing = concat (drop 2 ps)
      in if py_in ''hitSlop'' tag then concat ps
         else tag @ ''\<newline>                hitSlop={HIT_SLOP}'' @ closing)"

definition process_file :: "path \<Rightarrow> string \<Rightarrow> outcome" where
  "process_file file_path content =
     (if \<not> py_in ''IconButton'' content \<or> \<not> py_in ''react-native-paper'' content
      then \<lparr>returned = False, printed = [], written = None\<rparr>
      else if py_in ''HIT_SLOP'' content
      then \<lparr>returned = False, printed = [Skip_has_HIT_SLOP (relative_to_parent file_path)],
            written = None\<rparr>
      else
        let import_path = get_relative_import file_path;
            import_statement = ''import { HIT_SLOP } from '' @ [CHR 0x27] @ import_path @ [CHR 0x27] @ '';'';
            lines = split CHR ''\<newline>'' content;
            idx = last_import_idx lines;
            (content1, modified1) =
               (if idx \<ge> 0
                then (join ''\<newline>'' (insert_at (nat (idx + 1)) import_statement lines), True)
                else (content, False));
            new_content = re_sub tag_pattern add_hitslop content1;
            (content2, modified2) =
               (if new_content \<noteq> content1 then (new_content, True) else (content1, modified1))
        in if modified2
           then \<lparr>returned = True, printed = [Modified (relative_to_parent file_path)],
                 written = Some content2\<rparr>
           else \<lparr>returned = False, printed = [], written = None\<rparr>)"

type_synonym tree = "(path \<times> string) list"

definition is_tsx :: "path \<Rightarrow> bool" where
  \<comment> \<open>the file name matches \<open>*.tsx\<close>\<close>
  "is_tsx file_path = (file_path \<noteq> [] \<and> startswith (rev (last file_path)) (rev ''.tsx''))"

fun main_loop :: "tree \<Rightarrow> nat \<Rightarrow> nat \<Rightarrow> tree \<times> nat \<times> nat" where
  \<comment> \<open>the loop of \<open>main\<close> over the files of the tree, with the counters \<open>processed\<close> and \<open>modified\<close>\<close>
  "main_loop [] processed modified = ([], processed, modified)"
| "main_loop ((tsx_file, content) # rest) processed modified =
     (if \<not> is_tsx tsx_file \<or> relative_to_parent tsx_file \<in> SKIP_FILES
      then (case main_loop rest processed modified of
              (t, pr, mo) \<Rightarrow> ((tsx_file, content) # t, pr, mo))
      else
        let r = process_file tsx_file content
        in case main_loop rest (processed + 1) (if returned r then modified + 1 else modified) of
             (t, pr, mo) \<Rightarrow> ((tsx_file, content_after content r) # t, pr, mo))"

definition main :: "tree \<Rightarrow> tree \<times> nat \<times> nat" where
  "main t = main_loop t 0 0"

section \<open>fix_all_imports.py\<close>

definition import_pattern :: "item list" where
  \<comment> \<open>group 1 is pieces 0 to 2, group 2 is piece 16, group 3 is pieces 21 to 31\<close>
  "import_pattern =
     [Lit ''import'', Rep Space 1 Greedy, Lit ''{'',
      Rep Space 0 Greedy, Lit ''\<newline>'', Lit ''import'', Rep Space 1 Greedy, Lit ''{'',
      Rep Space 0 Greedy, Lit ''HIT_SLOP'', Rep Space 0 Greedy, Lit ''}'', Rep Space 1 Greedy,
      Lit ''from'', Rep Space 1 Greedy, One (OneOf [CHR 0x27, CHR 0x22]),
      Rep (NoneOf [CHR 0x27, CHR 0x22]) 1 Greedy,
      One (OneOf [CHR 0x27, CHR 0x22]), Lit '';'', Rep Space 0 Greedy, Lit ''\<newline>'',
      Rep Space 1 Greedy, Rep (NoneOf ''}'') 1 Greedy, Lit ''\<newline>'', Lit ''}'',
      Rep Space 1 Greedy, Lit ''from'', Rep Space 1 Greedy, One (OneOf [CHR 0x27, CHR 0x22]),
      Rep (NoneOf [CHR 0x27, CHR 0x22]) 1 Greedy, One (OneOf [CHR 0x27, CHR 0x22]), Lit '';'']"

definition fix_import :: "string list \<Rightarrow> string" where
  "fix_import ps =
     (let import_start = concat (take 3 ps);
          hit_slop_path = ps ! 16;
          rest_of_import = concat (drop 21 ps)
      in import_start @ ''\<newline>'' @ rest_of_import @
         ''\<newline>import { HIT_SLOP } from '' @ [CHR 0x27] @ hit_slop_path @ [CHR 0x27] @ '';'')"

definition fix_all_imports :: "path \<Rightarrow> string \<Rightarrow> outcome" where
  \<comment> \<open>\<open>fix_file\<close> of fix_all_imports.py\<close>
  "fix_all_imports file_path original =
     (let content = re_sub import_pattern fix_import original
      in if content \<noteq> original
         then \<lparr>returned = True, printed = [Fixed (relative_to_parent file_path)],
               written = Some content\<rparr>
         else \<lparr>returned = False, printed = [], written = None\<rparr>)"

section \<open>fix_imports.py\<close>

definition capture :: "string list \<Rightarrow> string list \<times> string option" where
  \<comment> \<open>the loop of lines 25 to 34: \<open>new_lines\<close> and \<open>hit_slop_import\<close>\<close>
  "capture lines =
     fold (\<lambda>(i, line) (new_lines, hit_slop_import).
             if py_in ''import { HIT_SLOP }'' line \<and> i < length lines - 1 \<and>
                i > 0 \<and> (startswith (strip (lines ! (i - 1))) ''import'' \<or>
                          strip (lines ! (i - 1)) = ''{'')
             then (new_lines, Some line)
             else (new_lines @ [line], hit_slop_import))
       (enumerate 0 lines) ([], None)"

definition import_end_idx :: "string list \<Rightarrow> int" where
  \<comment> \<open>the loop of lines 39 to 43\<close>
  "import_end_idx new_lines =
     fold (\<lambda>(i, line) idx.
             let stripped = strip line
             in if startswith stripped ''import '' \<or>
                   (i > 0 \<and> startswith (strip (new_lines ! (i - 1))) ''import'' \<and>
                    startswith stripped ''}'')
                then int i else idx)
       (enumerate 0 new_lines) (- 1)"

definition fix_imports :: "path \<Rightarrow> string \<Rightarrow> outcome" where
  \<comment> \<open>\<open>fix_file\<close> of fix_imports.py\<close>
  "fix_imports file_path content =
     (if \<not> py_in ''import { HIT_SLOP }'' content
      then \<lparr>returned = False, printed = [], written = None\<rparr>
      else
        let lines = split CHR ''\<newline>'' content;
            (new_lines, hit_slop_import) = capture lines;
            new_lines =
              (case hit_slop_import of
                 None \<Rightarrow> new_lines
               | Some l \<Rightarrow>
                   let idx = import_end_idx new_lines
                   in if idx \<ge> 0 then insert_at (nat (idx + 1)) l new_lines else new_lines);
            new_content = join ''\<newline>'' new_lines
        in if new_content \<noteq> content
           then \<lparr>returned = True, printed = [Fixed (relative_to_parent file_path)],
                 written = Some new_content\<rparr>
           else \<lparr>returned = False, printed = [], written = None\<rparr>)"

section \<open>fix_arrow_functions.py\<close>





section \<open>Running a pass on a file\<close>

definition apply_pass :: "(path \<Rightarrow> string \<Rightarrow> outcome) \<Rightarrow> path \<Rightarrow> string \<Rightarrow> string" where
  \<comment> \<open>the text of the file at \<open>file_path\<close> after the pass has run on it\<close>
  "apply_pass pass file_path content = content_after content (pass file_path content)"

declare re_sub.simps [simp del] replace.simps [simp del]

section \<open>What a pattern matches\<close>


section \<open>Facts about the string functions and the matcher\<close>


lemma startswith_iff: "startswith s p \<longleftrightarrow> (\<exists>t. s = p @ t)"
  by (induction s p rule: startswith.induct) auto

lemma py_in_iff: "py_in sub s \<longleftrightarrow> (\<exists>a b. s = a @ sub @ b)"
proof (induction s)
  case Nil
  then show ?case by auto
next
  case (Cons c s)
  show ?case
  proof
    assume "py_in sub (c # s)"
    then consider "startswith (c # s) sub" | "py_in sub s" by auto
    then show "\<exists>a b. c # s = a @ sub @ b"
    proof cases
      case 1
      then obtain t where "c # s = sub @ t" by (auto simp: startswith_iff)
      then have "c # s = [] @ sub @ t" by simp
      then show ?thesis by blast
    next
      case 2
      then obtain a b where "s = a @ sub @ b" using Cons.IH by auto
      then have "c # s = (c # a) @ sub @ b" by simp
      then show ?thesis by blast
    qed
  next
    assume "\<exists>a b. c # s = a @ sub @ b"
    then obtain a b where ab: "c # s = a @ sub @ b" by auto
    show "py_in sub (c # s)"
    proof (cases a)
      case Nil
      then have "startswith (c # s) sub" using ab by (auto simp: startswith_iff)
      then show ?thesis by simp
    next
      case (Cons x a')
      then have "s = a' @ sub @ b" using ab by simp
      then show ?thesis using Cons.IH by auto
    qed
  qed
qed




section \<open>The injector\<close>



lemma py_in_append1: "py_in m a \<Longrightarrow> py_in m (a @ b)"
  by (auto simp: py_in_iff) (metis append.assoc)

lemma py_in_append2: "py_in m b \<Longrightarrow> py_in m (a @ b)"
  by (auto simp: py_in_iff) (metis append.assoc)


lemma py_in_mid: "py_in m (a @ m @ b)"
  by (auto simp: py_in_iff)




lemma py_in_join: "l \<in> set ls \<Longrightarrow> py_in m l \<Longrightarrow> py_in m (join sep ls)"
proof (induction sep ls rule: join.induct)
  case (1 sep)
  then show ?case by simp
next
  case (2 sep l')
  then show ?case by simp
next
  case (3 sep l' v va)
  then show ?case by (auto intro: py_in_append1 py_in_append2)
qed

lemma set_insert_at: "set (insert_at k x xs) = insert x (set xs)"
proof -
  have "set (take k xs) \<union> set (drop k xs) = set xs" by (metis append_take_drop_id set_append)
  then show ?thesis by (auto simp: insert_at_def)
qed

lemma import_statement_HIT_SLOP:
  "py_in ''HIT_SLOP'' (''import { HIT_SLOP } from '' @ [CHR 0x27] @ ip @ [CHR 0x27] @ '';'')"
proof -
  have "''import { HIT_SLOP } from '' @ [CHR 0x27] @ ip @ [CHR 0x27] @ '';''
     = ''import { '' @ ''HIT_SLOP'' @ ('' } from '' @ [CHR 0x27] @ ip @ [CHR 0x27] @ '';'')" by simp
  then show ?thesis using py_in_mid by metis
qed





lemma fold_enumerate_snoc:
  "fold f (enumerate n (xs @ [x])) a = f (n + length xs, x) (fold f (enumerate n xs) a)"
  by (simp add: enumerate_append_eq)

lemma last_import_idx_snoc:
  "last_import_idx (xs @ [x]) =
     (if startswith (strip x) ''import '' then int (length xs) else last_import_idx xs)"
  by (simp add: last_import_idx_def fold_enumerate_snoc)

lemma last_import_idx_Nil: "last_import_idx [] = - 1"
  by (simp add: last_import_idx_def)

lemma last_import_idx_none:
  "\<forall>line\<in>set lines. \<not> startswith (strip line) ''import '' \<Longrightarrow> last_import_idx lines = - 1"
  by (induction lines rule: rev_induct) (auto simp: last_import_idx_Nil last_import_idx_snoc)

lemma last_import_idx_some:
  "\<exists>line\<in>set lines. startswith (strip line) ''import '' \<Longrightarrow>
     0 \<le> last_import_idx lines \<and> nat (last_import_idx lines) < length lines \<and>
     startswith (strip (lines ! nat (last_import_idx lines))) ''import '' \<and>
     (\<forall>j. nat (last_import_idx lines) < j \<and> j < length lines \<longrightarrow>
          \<not> startswith (strip (lines ! j)) ''import '')"
proof (induction lines rule: rev_induct)
  case Nil
  then show ?case by simp
next
  case (snoc x xs)
  show ?case
  proof (cases "startswith (strip x) ''import ''")
    case True
    then show ?thesis by (auto simp add: last_import_idx_snoc)
  next
    case False
    with snoc.prems have "\<exists>line\<in>set xs. startswith (strip line) ''import ''" by auto
    from snoc.IH[OF this] False show ?thesis
      by (auto simp: last_import_idx_snoc nth_append less_Suc_eq)
  qed
qed

text \<open>
  C3, as amended. In a file that passes the tests of the injector (it names \<open>IconButton\<close> and
  \<open>react-native-paper\<close> and not \<open>HIT_SLOP\<close>) and has no line whose stripped form starts with
  \<open>import \<close>, no import statement is inserted; the tags are rewritten all the same. The text
  of the file after the pass is the rewriting of the tags of the old text, and nothing is written
  exactly when that rewriting changes nothing.
\<close>

theorem no_anchor_tags_only:
  assumes "py_in ''IconButton'' content" and "py_in ''react-native-paper'' content"
    and "\<not> py_in ''HIT_SLOP'' content"
    and "\<forall>line\<in>set (split CHR ''\<newline>'' content). \<not> startswith (strip line) ''import ''"
  shows "apply_pass process_file file_path content = re_sub tag_pattern add_hitslop content \<and>
         (written (process_file file_path content) = None \<longleftrightarrow>
            re_sub tag_pattern add_hitslop content = content)"
proof -
  have i: "last_import_idx (split CHR ''\<newline>'' content) = - 1"
    using assms(4) by (rule last_import_idx_none)
  show ?thesis using assms(1-3) i
    by (auto simp add: apply_pass_def process_file_def content_after_def Let_def)
qed

text \<open>
  C3 as stated fails: this file passes the tests of the injector and has no import line, and the
  injector changes it.
\<close>

theorem no_anchor_counterexample:
  "py_in ''IconButton'' ''const { IconButton } = require('react-native-paper');\<newline><IconButton icon=\"x\" />'' \<and>
   py_in ''react-native-paper'' ''const { IconButton } = require('react-native-paper');\<newline><IconButton icon=\"x\" />'' \<and>
   \<not> py_in ''HIT_SLOP'' ''const { IconButton } = require('react-native-paper');\<newline><IconButton icon=\"x\" />'' \<and>
   split CHR ''\<newline>'' ''const { IconButton } = require('react-native-paper');\<newline><IconButton icon=\"x\" />''
     = [''const { IconButton } = require('react-native-paper');'', ''<IconButton icon=\"x\" />''] \<and>
   \<not> startswith (strip ''const { IconButton } = require('react-native-paper');'') ''import '' \<and>
   \<not> startswith (strip ''<IconButton icon=\"x\" />'') ''import '' \<and>
   apply_pass process_file [''screens'', ''A.tsx'']
      ''const { IconButton } = require('react-native-paper');\<newline><IconButton icon=\"x\" />''
   \<noteq> ''const { IconButton } = require('react-native-paper');\<newline><IconButton icon=\"x\" />''"
  by code_simp

theorem no_anchor_tags_only_witness:
  "apply_pass process_file [''screens'', ''A.tsx'']
      ''const { IconButton } = require('react-native-paper');\<newline><IconButton icon=\"x\" />''
   = ''const { IconButton } = require('react-native-paper');\<newline><IconButton icon=\"x\" \<newline>                hitSlop={HIT_SLOP}/>''"
proof -
  let ?c = "''const { IconButton } = require('react-native-paper');\<newline><IconButton icon=\"x\" />''"
  have h1: "py_in ''IconButton'' ?c" by code_simp
  have h2: "py_in ''react-native-paper'' ?c" by code_simp
  have h3: "\<not> py_in ''HIT_SLOP'' ?c" by code_simp
  have h4: "\<forall>line\<in>set (split CHR ''\<newline>'' ?c). \<not> startswith (strip line) ''import ''" by code_simp
  have e: "re_sub tag_pattern add_hitslop ?c =
     ''const { IconButton } = require('react-native-paper');\<newline><IconButton icon=\"x\" \<newline>                hitSlop={HIT_SLOP}/>''"
    by code_simp
  from no_anchor_tags_only[OF h1 h2 h3 h4, of "[''screens'', ''A.tsx'']"] e show ?thesis by simp
qed

lemma main_loop_fst:
  "fst (main_loop t processed modified) =
     map (\<lambda>(tsx_file, content).
            if \<not> is_tsx tsx_file \<or> relative_to_parent tsx_file \<in> SKIP_FILES
            then (tsx_file, content)
            else (tsx_file, apply_pass process_file tsx_file content)) t"
  by (induction t processed modified rule: main_loop.induct)
     (auto simp: Let_def apply_pass_def split: prod.splits)

text \<open>
  C8. \<open>main\<close> never changes a file of the skip list: the tree after the run has the same files in
  the same order, and a file whose path relative to the parent of \<open>SRC_DIR\<close> is in \<open>SKIP_FILES\<close>
  has the text it had, whatever that text is.
\<close>

theorem skip_list_exclusion:
  assumes "i < length t" and "relative_to_parent (fst (t ! i)) \<in> SKIP_FILES"
  shows "length (fst (main t)) = length t \<and> fst (main t) ! i = t ! i"
  using assms by (cases "t ! i") (simp add: main_def main_loop_fst)

theorem skip_list_exclusion_witness:
  "relative_to_parent [''components'', ''ProjectCard.tsx''] \<in> SKIP_FILES \<and>
   py_in ''IconButton'' ''import { IconButton } from 'react-native-paper';\<newline><IconButton />'' \<and>
   py_in ''react-native-paper'' ''import { IconButton } from 'react-native-paper';\<newline><IconButton />'' \<and>
   \<not> py_in ''HIT_SLOP'' ''import { IconButton } from 'react-native-paper';\<newline><IconButton />'' \<and>
   fst (main [([''components'', ''ProjectCard.tsx''],
                ''import { IconButton } from 'react-native-paper';\<newline><IconButton />'')]) ! 0
    = ([''components'', ''ProjectCard.tsx''],
       ''import { IconButton } from 'react-native-paper';\<newline><IconButton />'')"
proof -
  let ?c = "''import { IconButton } from 'react-native-paper';\<newline><IconButton />''"
  let ?t = "[([''components'', ''ProjectCard.tsx''], ?c)]"
  have h1: "(0::nat) < length ?t" by simp
  have r: "relative_to_parent [''components'', ''ProjectCard.tsx''] \<in> SKIP_FILES" by code_simp
  then have h2: "relative_to_parent (fst (?t ! 0)) \<in> SKIP_FILES" by simp
  have e: "py_in ''IconButton'' ?c \<and> py_in ''react-native-paper'' ?c \<and> \<not> py_in ''HIT_SLOP'' ?c"
    by code_simp
  from skip_list_exclusion[OF h1 h2] r e show ?thesis by simp
qed




lemma py_in_set: "py_in l s \<Longrightarrow> set l \<subseteq> set s"
  by (auto simp: py_in_iff)

lemma split_not_Nil: "split sep s \<noteq> []"
  by (induction s) (auto split: list.splits)

lemma join_split: "join [sep] (split sep s) = s"
proof (induction s)
  case Nil
  then show ?case by simp
next
  case (Cons c s)
  obtain l ls where sp: "split sep s = l # ls"
    using split_not_Nil[of sep s] by (cases "split sep s") auto
  show ?case
  proof (cases "c = sep")
    case True
    with Cons sp show ?thesis by simp
  next
    case False
    with Cons sp show ?thesis by (cases ls) auto
  qed
qed

lemma py_in_split: "x \<in> set (split sep c) \<Longrightarrow> py_in l x \<Longrightarrow> py_in l c"
  using py_in_join[of x "split sep c" l "[sep]"] by (simp add: join_split)

lemma py_in_append_sep:
  assumes "py_in l (a @ sep # b)" and "sep \<notin> set l"
  shows "py_in l a \<or> py_in l b"
proof (cases "l = []")
  case True
  have "a = [] @ [] @ a" by simp
  then show ?thesis unfolding True py_in_iff by blast
next
  case False
  from assms(1) obtain u v where uv: "a @ sep # b = u @ l @ v" by (auto simp: py_in_iff)
  then consider w where "a = u @ w" "w @ sep # b = l @ v" | w where "u = a @ w" "sep # b = w @ l @ v"
    by (auto simp: append_eq_append_conv2)
  then show ?thesis
  proof cases
    case 1
    from 1(2) consider x where "w = l @ x" | x where "l = w @ x" "sep # b = x @ v" "x \<noteq> []"
      by (auto simp: append_eq_append_conv2) (metis append_Nil2)
    then show ?thesis
    proof cases
      case 1
      with \<open>a = u @ w\<close> show ?thesis by (auto simp: py_in_iff)
    next
      case 2
      then have "sep \<in> set l" by (cases x) auto
      with assms(2) show ?thesis by simp
    qed
  next
    case 2
    from 2(2) assms(2) False have "w \<noteq> []" by (cases l) (auto simp: Cons_eq_append_conv)
    with 2(2) obtain w' where "w = sep # w'" "b = w' @ l @ v" by (cases w) auto
    then show ?thesis by (auto simp: py_in_iff)
  qed
qed

lemma py_in_join_sep:
  "py_in l (join [sep] ls) \<Longrightarrow> sep \<notin> set l \<Longrightarrow> l \<noteq> [] \<Longrightarrow> \<exists>x\<in>set ls. py_in l x"
proof (induction "[sep]" ls rule: join.induct)
  case 1
  then show ?case by simp
next
  case (2 x)
  then show ?case by simp
next
  case (3 x v va)
  from "3.prems"(1) have "py_in l (x @ sep # join [sep] (v # va))" by simp
  from py_in_append_sep[OF this "3.prems"(2)] "3.hyps" "3.prems"(2,3) show ?case by auto
qed

lemma re_match_Lit_None: "\<not> startswith s l \<Longrightarrow> re_match (Lit l # rs) s = None"
  by simp

lemma re_sub_no_literal:
  "\<not> py_in l s \<Longrightarrow> re_sub (Lit l # rs) repl s = s"
proof (induction s)
  case Nil
  then have "\<not> startswith [] l" by (cases l) auto
  then show ?case by (simp add: re_sub.simps[of _ _ "[]"])
next
  case (Cons c s)
  then have "\<not> startswith (c # s) l" "\<not> py_in l s" by auto
  with Cons.IH show ?case by (simp add: re_sub.simps[of _ _ "c # s"])
qed

lemma set_replace: "set (replace old new s) \<subseteq> set s \<union> set new"
proof (induction old new s rule: replace.induct)
  case (1 old new s)
  show ?case
  proof (cases "old = [] \<or> s = []")
    case True
    then show ?thesis by (auto simp: replace.simps[of old new s])
  next
    case False
    show ?thesis
    proof (cases "startswith s old")
      case True
      with False "1.IH"(1) have "set (replace old new (drop (length old) s)) \<subseteq> set (drop (length old) s) \<union> set new"
        by simp
      moreover have "set (drop (length old) s) \<subseteq> set s" by (rule set_drop_subset)
      ultimately show ?thesis using False True by (auto simp: replace.simps[of old new s])
    next
      case F2: False
      with False "1.IH"(2) have "set (replace old new (tl s)) \<subseteq> set (tl s) \<union> set new" by simp
      moreover have "set (tl s) \<subseteq> set s" using False by (cases s) auto
      moreover have "hd s \<in> set s" using False by (cases s) auto
      ultimately show ?thesis using False F2 by (auto simp: replace.simps[of old new s])
    qed
  qed
qed

lemma set_join: "set (join sep ls) \<subseteq> set sep \<union> \<Union> (set ` set ls)"
  by (induction sep ls rule: join.induct) auto

lemma relpath_chars:
  assumes "c \<in> set (relpath path_list start_list)"
  shows "c = CHR ''.'' \<or> c = CHR ''/'' \<or> (\<exists>x\<in>set path_list. c \<in> set x)"
proof -
  define rl where "rl = replicate (length start_list - length (commonprefix start_list path_list)) ''..'' @
                       drop (length (commonprefix start_list path_list)) path_list"
  have r: "relpath path_list start_list = (if rl = [] then ''.'' else join ''/'' rl)"
    by (simp add: relpath_def Let_def rl_def)
  show ?thesis
  proof (cases "rl = []")
    case True
    with r assms show ?thesis by simp
  next
    case False
    with r assms have "c \<in> set (join ''/'' rl)" by simp
    with set_join[of "''/''" rl] have "c \<in> set ''/'' \<or> (\<exists>x\<in>set rl. c \<in> set x)" by blast
    then consider "c = CHR ''/''" | x where "x \<in> set rl" "c \<in> set x" by auto
    then show ?thesis
    proof cases
      case 1
      then show ?thesis by simp
    next
      case 2
      from 2(1) have "x \<in> set (replicate (length start_list - length (commonprefix start_list path_list)) ''..'')
                    \<or> x \<in> set (drop (length (commonprefix start_list path_list)) path_list)"
        unfolding rl_def by simp
      then have "x = ''..'' \<or> x \<in> set path_list"
        using in_set_dropD[of x] in_set_replicate[of x] by blast
      with 2(2) show ?thesis by auto
    qed
  qed
qed

lemma get_relative_import_chars: "CHR ''<'' \<notin> set (get_relative_import p)"
proof -
  define r where "r = relpath (SRC_DIR @ [''constants'', ''ui.ts'']) (SRC_DIR @ butlast p)"
  define r1 where "r1 = replace ''.ts'' [] r"
  define r2 where "r2 = replace [CHR 0x5C] ''/'' r1"
  have a: "CHR ''<'' \<notin> set r"
  proof
    assume "CHR ''<'' \<in> set r"
    from relpath_chars[OF this[unfolded r_def]]
    have "\<exists>x\<in>set (SRC_DIR @ [''constants'', ''ui.ts'']). CHR ''<'' \<in> set x" by simp
    then show False by (simp add: SRC_DIR_def)
  qed
  have "set r1 \<subseteq> set r \<union> set []" unfolding r1_def by (rule set_replace)
  with a have b: "CHR ''<'' \<notin> set r1" by auto
  have "set r2 \<subseteq> set r1 \<union> set ''/''" unfolding r2_def by (rule set_replace)
  with b have c: "CHR ''<'' \<notin> set r2" by auto
  have "get_relative_import p = (if \<not> startswith r2 ''.'' then ''./'' @ r2 else r2)"
    by (simp add: get_relative_import_def Let_def r_def r1_def r2_def)
  with c show ?thesis by (simp split: if_splits)
qed

lemma import_statement_no_tag:
  "\<not> py_in ''<IconButton'' (''import { HIT_SLOP } from '' @ [CHR 0x27] @ get_relative_import p @ [CHR 0x27] @ '';'')"
proof
  assume "py_in ''<IconButton'' (''import { HIT_SLOP } from '' @ [CHR 0x27] @ get_relative_import p @ [CHR 0x27] @ '';'')"
  from py_in_set[OF this] get_relative_import_chars[of p] show False by auto
qed

lemma process_file_outcome:
  assumes "py_in ''IconButton'' c" "py_in ''react-native-paper'' c" "\<not> py_in ''HIT_SLOP'' c"
  shows "process_file p c =
     (let idx = last_import_idx (split CHR ''\<newline>'' c);
          c1 = (if idx \<ge> 0
                then join ''\<newline>'' (insert_at (nat (idx + 1))
                       (''import { HIT_SLOP } from '' @ [CHR 0x27] @ get_relative_import p @ [CHR 0x27] @ '';'')
                       (split CHR ''\<newline>'' c))
                else c);
          nc = re_sub tag_pattern add_hitslop c1
      in if nc \<noteq> c1 \<or> idx \<ge> 0
         then \<lparr>returned = True, printed = [Modified (relative_to_parent p)], written = Some nc\<rparr>
         else \<lparr>returned = False, printed = [], written = None\<rparr>)"
  using assms by (simp add: process_file_def Let_def)

lemma inserted_no_tag:
  assumes "\<not> py_in ''<IconButton'' content"
  shows "\<not> py_in ''<IconButton''
           (join ''\<newline>'' (insert_at k
              (''import { HIT_SLOP } from '' @ [CHR 0x27] @ get_relative_import p @ [CHR 0x27] @ '';'')
              (split CHR ''\<newline>'' content)))"
proof
  define st where "st = ''import { HIT_SLOP } from '' @ [CHR 0x27] @ get_relative_import p @ [CHR 0x27] @ '';''"
  define ls where "ls = insert_at k st (split CHR ''\<newline>'' content)"
  assume "py_in ''<IconButton''
           (join ''\<newline>'' (insert_at k
              (''import { HIT_SLOP } from '' @ [CHR 0x27] @ get_relative_import p @ [CHR 0x27] @ '';'')
              (split CHR ''\<newline>'' content)))"
  then have "py_in ''<IconButton'' (join [CHR ''\<newline>''] ls)" by (simp only: ls_def st_def)
  then have "\<exists>x\<in>set ls. py_in ''<IconButton'' x"
    by (rule py_in_join_sep) simp_all
  then obtain x where x: "x \<in> set ls" "py_in ''<IconButton'' x" by blast
  from x(1) have "x = st \<or> x \<in> set (split CHR ''\<newline>'' content)"
    unfolding ls_def set_insert_at by blast
  moreover have "\<not> py_in ''<IconButton'' st" unfolding st_def by (rule import_statement_no_tag)
  ultimately have "x \<in> set (split CHR ''\<newline>'' content)" using x(2) by blast
  from py_in_split[OF this x(2)] assms show False by simp
qed

lemma inserted_HIT_SLOP:
  "py_in ''HIT_SLOP''
           (join ''\<newline>'' (insert_at k
              (''import { HIT_SLOP } from '' @ [CHR 0x27] @ ip @ [CHR 0x27] @ '';'') ls))"
proof -
  define st where "st = ''import { HIT_SLOP } from '' @ [CHR 0x27] @ ip @ [CHR 0x27] @ '';''"
  have a: "py_in ''HIT_SLOP'' st" unfolding st_def by (rule import_statement_HIT_SLOP)
  have b: "st \<in> set (insert_at k st ls)" unfolding set_insert_at by blast
  from py_in_join[OF b a] show ?thesis unfolding st_def .
qed

text \<open>
  C10. A file that names \<open>IconButton\<close> and \<open>react-native-paper\<close> anywhere, does not name
  \<open>HIT_SLOP\<close> and has a line whose stripped form starts with \<open>import \<close> is always written:
  the injector puts its import statement right after the last such line and then rewrites the
  tags. When the text has no \<open><IconButton\<close> at all, the inserted import statement is the only
  change.
\<close>

theorem eligibility_is_containment:
  assumes "py_in ''IconButton'' content" and "py_in ''react-native-paper'' content"
    and "\<not> py_in ''HIT_SLOP'' content"
    and "\<exists>line\<in>set (split CHR ''\<newline>'' content). startswith (strip line) ''import ''"
  shows "let lines = split CHR ''\<newline>'' content;
             i = nat (last_import_idx lines);
             import_statement = ''import { HIT_SLOP } from '' @ [CHR 0x27] @
                                get_relative_import file_path @ [CHR 0x27] @ '';'';
             inserted = join ''\<newline>'' (insert_at (Suc i) import_statement lines)
         in i < length lines \<and> startswith (strip (lines ! i)) ''import '' \<and>
            (\<forall>j. i < j \<and> j < length lines \<longrightarrow> \<not> startswith (strip (lines ! j)) ''import '') \<and>
            returned (process_file file_path content) = True \<and>
            written (process_file file_path content) = Some (re_sub tag_pattern add_hitslop inserted) \<and>
            (\<not> py_in ''<IconButton'' content \<longrightarrow>
               written (process_file file_path content) = Some inserted)"
proof -
  define lines where "lines = split CHR ''\<newline>'' content"
  define i where "i = nat (last_import_idx lines)"
  define st where "st = ''import { HIT_SLOP } from '' @ [CHR 0x27] @ get_relative_import file_path @ [CHR 0x27] @ '';''"
  define ins where "ins = join ''\<newline>'' (insert_at (Suc i) st lines)"
  from last_import_idx_some[OF assms(4)]
  have i: "0 \<le> last_import_idx lines" "i < length lines" "startswith (strip (lines ! i)) ''import ''"
    "\<forall>j. i < j \<and> j < length lines \<longrightarrow> \<not> startswith (strip (lines ! j)) ''import ''"
    unfolding lines_def i_def by blast+
  have n: "nat (last_import_idx lines + 1) = Suc i" using i(1) unfolding i_def by simp
  have o: "process_file file_path content =
      \<lparr>returned = True, printed = [Modified (relative_to_parent file_path)],
       written = Some (re_sub tag_pattern add_hitslop ins)\<rparr>"
    unfolding process_file_outcome[OF assms(1-3)] Let_def ins_def st_def
    using i(1) n unfolding lines_def by simp
  have t: "re_sub tag_pattern add_hitslop ins = ins" if "\<not> py_in ''<IconButton'' content"
  proof -
    have "\<not> py_in ''<IconButton'' ins"
      unfolding ins_def st_def lines_def using that by (rule inserted_no_tag)
    then show ?thesis unfolding tag_pattern_def by (rule re_sub_no_literal)
  qed
  have r: "returned (process_file file_path content) = True"
    and w: "written (process_file file_path content) = Some (re_sub tag_pattern add_hitslop ins)"
    unfolding o by simp_all
  have "i < length lines \<and> startswith (strip (lines ! i)) ''import '' \<and>
            (\<forall>j. i < j \<and> j < length lines \<longrightarrow> \<not> startswith (strip (lines ! j)) ''import '') \<and>
            returned (process_file file_path content) = True \<and>
            written (process_file file_path content) = Some (re_sub tag_pattern add_hitslop ins) \<and>
            (\<not> py_in ''<IconButton'' content \<longrightarrow>
               written (process_file file_path content) = Some ins)"
    using i(2,3,4) r w t by simp
  then show ?thesis unfolding Let_def ins_def st_def i_def lines_def .
qed

theorem eligibility_is_containment_witness:
  "py_in ''IconButton'' ''import React from 'react';\<newline>// IconButton of react-native-paper'' \<and>
   py_in ''react-native-paper'' ''import React from 'react';\<newline>// IconButton of react-native-paper'' \<and>
   \<not> py_in ''HIT_SLOP'' ''import React from 'react';\<newline>// IconButton of react-native-paper'' \<and>
   \<not> py_in ''<IconButton'' ''import React from 'react';\<newline>// IconButton of react-native-paper'' \<and>
   returned (process_file [''screens'', ''A.tsx''] ''import React from 'react';\<newline>// IconButton of react-native-paper'') \<and>
   written (process_file [''screens'', ''A.tsx''] ''import React from 'react';\<newline>// IconButton of react-native-paper'')
    = Some ''import React from 'react';\<newline>import { HIT_SLOP } from '../constants/ui';\<newline>// IconButton of react-native-paper''"
proof -
  let ?c = "''import React from 'react';\<newline>// IconButton of react-native-paper''"
  have h1: "py_in ''IconButton'' ?c" by code_simp
  have h2: "py_in ''react-native-paper'' ?c" by code_simp
  have h3: "\<not> py_in ''HIT_SLOP'' ?c" by code_simp
  have h4: "\<exists>line\<in>set (split CHR ''\<newline>'' ?c). startswith (strip line) ''import ''" by code_simp
  have h5: "\<not> py_in ''<IconButton'' ?c" by code_simp
  have e: "join ''\<newline>'' (insert_at (Suc (nat (last_import_idx (split CHR ''\<newline>'' ?c))))
             (''import { HIT_SLOP } from '' @ [CHR 0x27] @ get_relative_import [''screens'', ''A.tsx''] @ [CHR 0x27] @ '';'')
             (split CHR ''\<newline>'' ?c))
      = ''import React from 'react';\<newline>import { HIT_SLOP } from '../constants/ui';\<newline>// IconButton of react-native-paper''"
    by code_simp
  from eligibility_is_containment[OF h1 h2 h3 h4, of "[''screens'', ''A.tsx'']"] h5
  have r: "returned (process_file [''screens'', ''A.tsx''] ?c)" and
       w: "written (process_file [''screens'', ''A.tsx''] ?c) =
        Some (join ''\<newline>'' (insert_at (Suc (nat (last_import_idx (split CHR ''\<newline>'' ?c))))
             (''import { HIT_SLOP } from '' @ [CHR 0x27] @ get_relative_import [''screens'', ''A.tsx''] @ [CHR 0x27] @ '';'')
             (split CHR ''\<newline>'' ?c)))"
    unfolding Let_def by blast+
  note w' = w[unfolded e]
  from h1 h2 h3 h5 r w' show ?thesis by blast
qed

text \<open>
  C9. There is a text with two misplaced \<open>HIT_SLOP\<close> import lines (lines 1 and 2 below, each
  right after a line that starts with \<open>import\<close>) from which the declaration repairer removes
  both and puts back only the second: the file it writes has fewer such lines than the file it
  read.
\<close>

theorem declaration_repairer_drops_lines:
  "\<exists>content.
     (let lines = split CHR ''\<newline>'' content
      in 2 < length lines - 1 \<and>
         py_in ''import { HIT_SLOP }'' (lines ! 1) \<and> startswith (strip (lines ! 0)) ''import'' \<and>
         py_in ''import { HIT_SLOP }'' (lines ! 2) \<and> startswith (strip (lines ! 1)) ''import'') \<and>
     length (filter (py_in ''import { HIT_SLOP }'')
               (split CHR ''\<newline>'' (apply_pass fix_imports [''screens'', ''A.tsx''] content)))
       < length (filter (py_in ''import { HIT_SLOP }'') (split CHR ''\<newline>'' content)) \<and>
     apply_pass fix_imports [''screens'', ''A.tsx''] content
       = ''import {\<newline>import { HIT_SLOP } from '../b';\<newline>  View,\<newline>} from 'react-native';\<newline>''"
  by (rule exI[of _ "''import {\<newline>import { HIT_SLOP } from '../a';\<newline>import { HIT_SLOP } from '../b';\<newline>  View,\<newline>} from 'react-native';\<newline>''"])
     code_simp

text \<open>
  C2 fails on the code. The pattern ends a tag at the first \<open>>\<close>, so in a tag with an arrow
  function the attribute is inserted inside the arrow, not before the closing \<open>/>\<close>; and the
  pattern has no word boundary after the name, so the tag of a component with a longer name is
  rewritten too.
\<close>

theorem tag_rewrite_breaks_arrow:
  "re_sub tag_pattern add_hitslop ''<IconButton icon=\"x\" onPress={() => go()} />''
     = ''<IconButton icon=\"x\" onPress={() =\<newline>                hitSlop={HIT_SLOP}> go()} />'' \<and>
   re_sub tag_pattern add_hitslop ''<IconButtonGroup size={2} />''
     = ''<IconButtonGroup size={2} \<newline>                hitSlop={HIT_SLOP}/>''"
  by code_simp

lemma process_file_breaks_arrow:
  "written (process_file [''screens'', ''A.tsx'']
      ''import { IconButton } from 'react-native-paper';\<newline><IconButton icon=\"x\" onPress={() => go()} />'')
     = Some ''import { IconButton } from 'react-native-paper';\<newline>import { HIT_SLOP } from '../constants/ui';\<newline><IconButton icon=\"x\" onPress={() =\<newline>                hitSlop={HIT_SLOP}> go()} />''"
  by code_simp

















lemma apply_pass_fix_all_imports:
  "apply_pass fix_all_imports p c = re_sub import_pattern fix_import c"
  by (simp add: apply_pass_def fix_all_imports_def content_after_def Let_def)










section \<open>The callback repairer\<close>



end
